theory Spec2Isabelle
  imports Complex_Main
begin

section \<open>notePlayer: the keyboard table and the three ways to build a note\<close>

text \<open>
  A shallow embedding of \<^verbatim>\<open>src/notePlayer.js\<close>.

  \<^item> JavaScript values that may be \<^verbatim>\<open>undefined\<close> or \<^verbatim>\<open>null\<close> are wrapped in \<open>'a js\<close>.
  \<^item> Numbers are IEEE doubles in the source. A finite double is modelled by the real
    it denotes, and every rounded operation of the source (\<^verbatim>\<open>FREQ * Math.pow(2, 1/12)\<close>,
    \<^verbatim>\<open>curr.freq - noteFreq\<close>, reading the literal \<^verbatim>\<open>25.95654359874657\<close>) goes through a
    rounding function \<open>fl\<close> that the definitions take as a parameter. The value of
    \<^verbatim>\<open>Math.pow(2, 1/12)\<close> is the parameter \<open>s\<close>. Theorems about frequencies assume of
    \<open>fl\<close> and \<open>s\<close> only what binary64 arithmetic guarantees (\<open>ieee_rounding\<close>,
    \<open>semitone_ratio\<close>). Where the caller passes a number, \<^verbatim>\<open>NaN\<close> and the two
    infinities are values of their own (\<open>jsnum\<close>).
  \<^item> The browser (\<^verbatim>\<open>window\<close>, the console) is an explicit state, \<open>window\<close>, passed
    through every function that touches it; the sample that \<^verbatim>\<open>_.random(0.5,3,true)\<close>
    returns is a parameter \<open>r\<close>.
  \<^item> A call ends in a returned object, in a returned \<^verbatim>\<open>null\<close> or in an uncaught
    exception: \<open>failure + notePlayer\<close>.
  \<^item> The lodash functions \<^verbatim>\<open>map\<close>, \<^verbatim>\<open>flatten\<close>, \<^verbatim>\<open>find\<close> and \<^verbatim>\<open>dropRightWhile\<close> are the
    list functions of their documentation.
\<close>

subsection \<open>JavaScript values\<close>

datatype 'a js = Undefined | Null | Val 'a

datatype jsnum = Num real | Infinity | Minus_Infinity | NaN

text \<open>\<^verbatim>\<open>a < b\<close> on numbers: false as soon as one side is \<^verbatim>\<open>NaN\<close>.\<close>

fun js_lt :: "jsnum \<Rightarrow> jsnum \<Rightarrow> bool" where
  "js_lt (Num a) (Num b) = (a < b)"
| "js_lt (Num a) Infinity = True"
| "js_lt Minus_Infinity (Num b) = True"
| "js_lt Minus_Infinity Infinity = True"
| "js_lt _ _ = False"

text \<open>\<^verbatim>\<open>a - b\<close>, rounded where both sides are finite, and \<^verbatim>\<open>Math.abs\<close>.\<close>

fun js_sub :: "(real \<Rightarrow> real) \<Rightarrow> jsnum \<Rightarrow> jsnum \<Rightarrow> jsnum" where
  "js_sub fl (Num a) (Num b) = Num (fl (a - b))"
| "js_sub fl (Num a) Infinity = Minus_Infinity"
| "js_sub fl (Num a) Minus_Infinity = Infinity"
| "js_sub fl Infinity (Num b) = Infinity"
| "js_sub fl Infinity Minus_Infinity = Infinity"
| "js_sub fl Minus_Infinity (Num b) = Minus_Infinity"
| "js_sub fl Minus_Infinity Infinity = Minus_Infinity"
| "js_sub fl _ _ = NaN"

fun js_abs :: "jsnum \<Rightarrow> jsnum" where
  "js_abs (Num a) = Num \<bar>a\<bar>"
| "js_abs Infinity = Infinity"
| "js_abs Minus_Infinity = Infinity"
| "js_abs NaN = NaN"

text \<open>An \<^verbatim>\<open>AudioContext\<close> object, known by the order of its creation, and its
  \<^verbatim>\<open>destination\<close> node.\<close>

datatype AudioContext = AudioContext nat

datatype AudioNode = Destination nat

fun destination :: "AudioContext \<Rightarrow> AudioNode" where
  "destination (AudioContext k) = Destination k"

subsection \<open>The keyboard table: \<^verbatim>\<open>getNotesInfo\<close>\<close>

text \<open>An entry of the table. \<^verbatim>\<open>buildFromName\<close> and \<^verbatim>\<open>buildFromKeyNb\<close> add the property
  \<^verbatim>\<open>audioContext\<close> to the entry they found before they hand it to the constructor; a
  property that was never set reads as \<^verbatim>\<open>undefined\<close>.\<close>

record obj =
  keynb :: int
  freq :: real
  name :: string
  audioContext :: "AudioContext js"

text \<open>A \<^verbatim>\<open>notePlayer\<close> object. The constructor assigns the first six properties before
  anything in it can throw; \<^verbatim>\<open>audioContext\<close> and \<^verbatim>\<open>destinationNode\<close> stay \<^verbatim>\<open>undefined\<close> when it
  stops early. \<^verbatim>\<open>octave\<close> is what \<^verbatim>\<open>substr\<close> returns: a string. \<^verbatim>\<open>duration\<close> and \<^verbatim>\<open>volume\<close>
  hold whatever value the setters are given.\<close>

record notePlayer =
  pianoKeyNb :: int
  frequency :: real
  octave :: string
  name :: string
  duration :: "real js"
  volume :: "real js"
  audioContext :: "AudioContext js"
  destinationNode :: "AudioNode js"

text \<open>What a call can throw: a native \<^verbatim>\<open>TypeError\<close> (a property of \<^verbatim>\<open>undefined\<close> or \<^verbatim>\<open>null\<close>,
  \<^verbatim>\<open>new\<close> on something that is no constructor; a \<^verbatim>\<open>ReferenceError\<close> for a missing
  \<^verbatim>\<open>window\<close> is not told apart from it), or one of the two strings the source throws,
  \<^verbatim>\<open>"Invalid note name: "+noteName\<close> and \<^verbatim>\<open>"Invalid frequency (out of range): "+noteFreq\<close>.\<close>

datatype exn = TypeError | Invalid_note_name string | Invalid_frequency jsnum

text \<open>A line on the console: \<^verbatim>\<open>console.error(err)\<close> of the constructor,
  \<^verbatim>\<open>console.error("NOTEPLAYER ERROR: "+e)\<close> of the builders, and the
  \<^verbatim>\<open>console.log("closest frequency is ...")\<close> of \<^verbatim>\<open>buildFromFrequency\<close>.\<close>

datatype message = Error exn | NOTEPLAYER_ERROR exn | Closest_frequency real string

text \<open>The browser: whether \<^verbatim>\<open>new (window.AudioContext || window.webkitAudioContext)()\<close>
  succeeds, how many audio contexts have been created, and the console.\<close>

record window =
  AudioContext_available :: bool
  created :: nat
  console :: "message list"

text \<open>How a call that returns no object ends: it returns \<^verbatim>\<open>null\<close>, or an exception leaves it.\<close>

datatype failure = Returned_null | Uncaught exn

definition DICT_KEYS :: "string list" where
  "DICT_KEYS = [''A'', ''A#'', ''B'', ''C'', ''C#'', ''D'', ''D#'', ''E'', ''F'', ''F#'', ''G'', ''G#'']"

definition DICT_OCTAVES :: "nat list" where
  "DICT_OCTAVES = [0, 1, 2, 3, 4, 5, 6, 7, 8]"

text \<open>The two globals that the callbacks of \<^verbatim>\<open>getNotesInfo\<close> update.\<close>

record globals =
  KEYNB :: int
  FREQ :: real

text \<open>A number appended to a string (\<^verbatim>\<open>v2+v\<close>): its decimal digits.\<close>

definition digit_char :: "nat \<Rightarrow> char" where
  "digit_char d = ''0123456789'' ! d"

fun string_of_nat :: "nat \<Rightarrow> string" where
  "string_of_nat n =
     (if n < 10 then [digit_char n] else string_of_nat (n div 10) @ [digit_char (n mod 10)])"

declare string_of_nat.simps [simp del]

text \<open>The inner \<^verbatim>\<open>map\<close> over \<^verbatim>\<open>DICT_KEYS\<close>, for the octave \<open>v\<close>: each call of the callback
  increments \<^verbatim>\<open>KEYNB\<close>, multiplies \<^verbatim>\<open>FREQ\<close> by \<^verbatim>\<open>Math.pow(2, 1/12)\<close> and returns an entry.\<close>

fun map_keys :: "(real \<Rightarrow> real) \<Rightarrow> real \<Rightarrow> nat \<Rightarrow> string list \<Rightarrow> globals \<Rightarrow> obj list \<times> globals" where
  "map_keys fl s v [] g = ([], g)"
| "map_keys fl s v (v2 # ks) g =
     (let g1 = g\<lparr>KEYNB := KEYNB g + 1\<rparr>;
          g2 = g1\<lparr>FREQ := fl (FREQ g1 * s)\<rparr>;
          e = \<lparr>keynb = KEYNB g2, freq = FREQ g2, obj.name = v2 @ string_of_nat v,
               obj.audioContext = Undefined\<rparr>;
          (es, g3) = map_keys fl s v ks g2
      in (e # es, g3))"

text \<open>The outer \<^verbatim>\<open>map\<close> over \<^verbatim>\<open>DICT_OCTAVES\<close>.\<close>

fun map_octaves :: "(real \<Rightarrow> real) \<Rightarrow> real \<Rightarrow> nat list \<Rightarrow> globals \<Rightarrow> obj list list \<times> globals" where
  "map_octaves fl s [] g = ([], g)"
| "map_octaves fl s (v # vs) g =
     (let (row, g1) = map_keys fl s v DICT_KEYS g;
          (rows, g2) = map_octaves fl s vs g1
      in (row # rows, g2))"

text \<open>lodash's \<^verbatim>\<open>dropRightWhile\<close>: elements are dropped from the end while the predicate,
  called with the element and its index, holds.\<close>

function dropRightWhile :: "('a \<Rightarrow> nat \<Rightarrow> bool) \<Rightarrow> 'a list \<Rightarrow> 'a list" where
  "dropRightWhile p xs =
     (if xs \<noteq> [] \<and> p (last xs) (length xs - 1) then dropRightWhile p (butlast xs) else xs)"
  by pat_completeness auto
termination
  by (relation "measure (\<lambda>(p, xs). length xs)") auto

declare dropRightWhile.simps [simp del]

definition getNotesInfo :: "(real \<Rightarrow> real) \<Rightarrow> real \<Rightarrow> obj list" where
  "getNotesInfo fl s =
     dropRightWhile (\<lambda>e i. i \<ge> 88)
       (concat (fst (map_octaves fl s DICT_OCTAVES \<lparr>KEYNB = 0, FREQ = fl 25.95654359874657\<rparr>)))"

subsection \<open>The constructor\<close>

text \<open>\<^verbatim>\<open>str.substr(-1,1)\<close>: the last character, as a string.\<close>

definition substr_last :: "string \<Rightarrow> string" where
  "substr_last str = (if str = [] then [] else [last str])"

text \<open>\<^verbatim>\<open>new notePlayer(obj)\<close>, with \<open>r\<close> the sample \<^verbatim>\<open>_.random(0.5,3,true)\<close> returns. The body
  is one \<^verbatim>\<open>try\<close> block; its \<^verbatim>\<open>catch\<close> logs the error and executes \<^verbatim>\<open>return null\<close>, and a
  constructor called with \<^verbatim>\<open>new\<close> that returns a primitive yields \<^verbatim>\<open>this\<close>: the object as
  far as it was built. So \<^verbatim>\<open>new notePlayer(obj)\<close> is always an object.
  \<^item> \<^verbatim>\<open>obj.audioContext === void 0\<close>: a new context is created, or the creation throws;
  \<^item> \<^verbatim>\<open>obj.audioContext\<close> is \<^verbatim>\<open>null\<close>: it is stored, and \<^verbatim>\<open>this.audioContext.destination\<close> throws;
  \<^item> otherwise it is stored with its destination.\<close>

definition new_notePlayer :: "window \<Rightarrow> real \<Rightarrow> obj \<Rightarrow> notePlayer \<times> window" where
  "new_notePlayer w r ob =
     (let this = \<lparr>pianoKeyNb = keynb ob, frequency = freq ob,
                  octave = substr_last (obj.name ob), name = obj.name ob,
                  duration = Val r, volume = Val 1,
                  audioContext = Undefined, destinationNode = Undefined\<rparr>
      in case obj.audioContext ob of
           Undefined \<Rightarrow>
             if AudioContext_available w
             then (this\<lparr>audioContext := Val (AudioContext (created w)),
                        destinationNode := Val (destination (AudioContext (created w)))\<rparr>,
                   w\<lparr>created := created w + 1\<rparr>)
             else (this, w\<lparr>console := console w @ [Error TypeError]\<rparr>)
         | Null \<Rightarrow>
             (this\<lparr>audioContext := Null\<rparr>, w\<lparr>console := console w @ [Error TypeError]\<rparr>)
         | Val c \<Rightarrow>
             (this\<lparr>audioContext := Val c, destinationNode := Val (destination c)\<rparr>, w))"

subsection \<open>The three builders\<close>

text \<open>\<^verbatim>\<open>buildFromName\<close>: \<^verbatim>\<open>_.find\<close> is \<^const>\<open>find\<close>, \<^verbatim>\<open>undefined\<close> being \<open>None\<close>. The thrown
  string is caught in the function itself, logged, and \<^verbatim>\<open>null\<close> is returned.\<close>

definition buildFromName ::
  "(real \<Rightarrow> real) \<Rightarrow> real \<Rightarrow> window \<Rightarrow> real \<Rightarrow> string \<Rightarrow> AudioContext js
     \<Rightarrow> (failure + notePlayer) \<times> window" where
  "buildFromName fl s w r noteName ctx =
     (case find (\<lambda>e. obj.name e = noteName) (getNotesInfo fl s) of
        None \<Rightarrow>
          (Inl Returned_null,
           w\<lparr>console := console w @ [NOTEPLAYER_ERROR (Invalid_note_name noteName)]\<rparr>)
      | Some n \<Rightarrow>
          (let (p, w') = new_notePlayer w r (n\<lparr>obj.audioContext := ctx\<rparr>) in (Inr p, w')))"

text \<open>The callback of \<^verbatim>\<open>list.reduce\<close> in \<^verbatim>\<open>buildFromFrequency\<close> (\<open>current\<close> is the source's
  \<^verbatim>\<open>curr\<close>).\<close>

definition closer :: "(real \<Rightarrow> real) \<Rightarrow> jsnum \<Rightarrow> obj \<Rightarrow> obj \<Rightarrow> obj" where
  "closer fl noteFreq prev current =
     (if js_lt (js_abs (js_sub fl (Num (freq current)) noteFreq))
               (js_abs (js_sub fl (Num (freq prev)) noteFreq))
      then current else prev)"

text \<open>\<^verbatim>\<open>buildFromFrequency\<close>. On an empty list \<^verbatim>\<open>list[0].freq\<close> would throw a \<^verbatim>\<open>TypeError\<close>,
  caught like the thrown string. \<^verbatim>\<open>reduce\<close> without an initial value starts from the
  first element.\<close>

definition buildFromFrequency ::
  "(real \<Rightarrow> real) \<Rightarrow> real \<Rightarrow> window \<Rightarrow> real \<Rightarrow> jsnum \<Rightarrow> AudioContext js
     \<Rightarrow> (failure + notePlayer) \<times> window" where
  "buildFromFrequency fl s w r noteFreq ctx =
     (let list = getNotesInfo fl s in
      if list = []
      then (Inl Returned_null, w\<lparr>console := console w @ [NOTEPLAYER_ERROR TypeError]\<rparr>)
      else if js_lt noteFreq (Num (freq (list ! 0)))
              \<or> js_lt (Num (freq (list ! (length list - 1)))) noteFreq
      then (Inl Returned_null,
            w\<lparr>console := console w @ [NOTEPLAYER_ERROR (Invalid_frequency noteFreq)]\<rparr>)
      else (let closest = foldl (closer fl noteFreq) (hd list) (tl list)
            in buildFromName fl s
                 (w\<lparr>console := console w @ [Closest_frequency (freq closest) (obj.name closest)]\<rparr>)
                 r (obj.name closest) ctx))"

text \<open>\<^verbatim>\<open>buildFromKeyNb\<close> has no \<^verbatim>\<open>try\<close> and does not test what \<^verbatim>\<open>find\<close> returned:
  \<^verbatim>\<open>n.audioContext = audioContext\<close> on \<^verbatim>\<open>undefined\<close> throws a \<^verbatim>\<open>TypeError\<close> that leaves the
  function.\<close>

definition buildFromKeyNb ::
  "(real \<Rightarrow> real) \<Rightarrow> real \<Rightarrow> window \<Rightarrow> real \<Rightarrow> int \<Rightarrow> AudioContext js
     \<Rightarrow> (failure + notePlayer) \<times> window" where
  "buildFromKeyNb fl s w r noteKeyNb ctx =
     (case find (\<lambda>e. keynb e = noteKeyNb) (getNotesInfo fl s) of
        None \<Rightarrow> (Inl (Uncaught TypeError), w)
      | Some n \<Rightarrow>
          (let (p, w') = new_notePlayer w r (n\<lparr>obj.audioContext := ctx\<rparr>) in (Inr p, w')))"

subsection \<open>The setters\<close>

definition setDuration :: "real js \<Rightarrow> notePlayer \<Rightarrow> notePlayer" where
  "setDuration d this = this\<lparr>duration := (if d = Undefined then duration this else d)\<rparr>"

definition setVolume :: "real js \<Rightarrow> notePlayer \<Rightarrow> notePlayer" where
  "setVolume v this = this\<lparr>volume := (if v = Undefined then volume this else v)\<rparr>"

section \<open>Auxiliary definitions for the statements\<close>

text \<open>One step of the running frequency: \<^verbatim>\<open>FREQ = FREQ * Math.pow(2, 1/12)\<close>.\<close>

definition semitone_up :: "(real \<Rightarrow> real) \<Rightarrow> real \<Rightarrow> real \<Rightarrow> real" where
  "semitone_up fl s x = fl (x * s)"

text \<open>The entry that the \<open>i\<close>-th call of the inner callback returns, counted from 0 over
  the whole run that starts in the globals \<open>g\<close> over the octaves \<open>vs\<close>.\<close>

definition generated :: "(real \<Rightarrow> real) \<Rightarrow> real \<Rightarrow> nat list \<Rightarrow> globals \<Rightarrow> nat \<Rightarrow> obj" where
  "generated fl s vs g i =
     \<lparr>keynb = KEYNB g + 1 + int i, freq = (semitone_up fl s ^^ Suc i) (FREQ g),
      obj.name = DICT_KEYS ! (i mod 12) @ string_of_nat (vs ! (i div 12)), obj.audioContext = Undefined\<rparr>"

text \<open>The value of \<^verbatim>\<open>FREQ\<close> after \<open>k\<close> steps, and the \<open>i\<close>-th entry of the table.\<close>

definition freq_at :: "(real \<Rightarrow> real) \<Rightarrow> real \<Rightarrow> nat \<Rightarrow> real" where
  "freq_at fl s k = (semitone_up fl s ^^ k) (fl 25.95654359874657)"

definition key_entry :: "(real \<Rightarrow> real) \<Rightarrow> real \<Rightarrow> nat \<Rightarrow> obj" where
  "key_entry fl s i =
     \<lparr>keynb = int i + 1, freq = freq_at fl s (Suc i),
      obj.name = DICT_KEYS ! (i mod 12) @ string_of_nat (i div 12), obj.audioContext = Undefined\<rparr>"

text \<open>What the theorems about frequencies assume of the arithmetic: a rounded result is
  within a relative error of \<open>2\<^sup>-\<^sup>5\<^sup>3\<close> of the exact one (binary64, round to nearest, no
  overflow or underflow), and \<^verbatim>\<open>Math.pow(2, 1/12)\<close> is within \<open>10\<^sup>-\<^sup>1\<^sup>5\<close> of the twelfth root
  of 2.\<close>

definition ieee_rounding :: "(real \<Rightarrow> real) \<Rightarrow> bool" where
  "ieee_rounding fl = (\<forall>x. \<bar>fl x - x\<bar> \<le> \<bar>x\<bar> / 2 ^ 53)"

definition semitone_ratio :: "real \<Rightarrow> bool" where
  "semitone_ratio s = (\<bar>s - root 12 2\<bar> \<le> 1 / 10 ^ 15)"

text \<open>The number a digit stands for: what \<^verbatim>\<open>Number(c)\<close> is for a one-character string
  \<open>c\<close> that is a decimal digit.\<close>

definition digit_value :: "char \<Rightarrow> nat option" where
  "digit_value c = find (\<lambda>d. digit_char d = c) [0..<10]"

section \<open>The table, entry by entry\<close>

lemma map_keys_eq:
  "map_keys fl s v ks g =
     (map (\<lambda>j. \<lparr>keynb = KEYNB g + 1 + int j, freq = (semitone_up fl s ^^ Suc j) (FREQ g),
                 obj.name = ks ! j @ string_of_nat v, obj.audioContext = Undefined\<rparr>) [0..<length ks],
      \<lparr>KEYNB = KEYNB g + int (length ks), FREQ = (semitone_up fl s ^^ length ks) (FREQ g)\<rparr>)"
proof (induction ks arbitrary: g)
  case Nil
  show ?case by simp
next
  case (Cons k ks)
  show ?case
    by (simp add: Cons.IH Let_def map_upt_Suc funpow_swap1 semitone_up_def [symmetric] del: upt_Suc)
qed

lemma length_DICT_KEYS: "length DICT_KEYS = 12"
  by (simp add: DICT_KEYS_def)

lemma split_upt_12: "map f [0..<12 + n] = map f [0..<12] @ map (\<lambda>i. f (i + 12)) [0..<n]"
proof -
  have "[0..<12 + n] = [0..<12] @ map (\<lambda>i. i + 12) [0..<n]"
    by (simp only: upt_add_eq_append [of 0 12 n, simplified] map_add_upt add.commute [of n 12])
  then show ?thesis by (simp only: map_append map_map o_def)
qed

lemma map_octaves_eq:
  "map_octaves fl s vs g =
     (fst (map_octaves fl s vs g),
      \<lparr>KEYNB = KEYNB g + int (12 * length vs),
       FREQ = (semitone_up fl s ^^ (12 * length vs)) (FREQ g)\<rparr>)
   \<and> concat (fst (map_octaves fl s vs g)) = map (generated fl s vs g) [0..<12 * length vs]"
proof (induction vs arbitrary: g)
  case Nil
  show ?case by simp
next
  case (Cons v vs)
  define g1 where "g1 = \<lparr>KEYNB = KEYNB g + 12, FREQ = (semitone_up fl s ^^ 12) (FREQ g)\<rparr>"
  define row where "row = map (\<lambda>j. \<lparr>keynb = KEYNB g + 1 + int j,
      freq = (semitone_up fl s ^^ Suc j) (FREQ g),
      obj.name = DICT_KEYS ! j @ string_of_nat v, obj.audioContext = Undefined\<rparr>) [0..<12]"
  have keys: "map_keys fl s v DICT_KEYS g = (row, g1)"
    by (simp add: map_keys_eq length_DICT_KEYS row_def g1_def)
  obtain rows g2 where rest: "map_octaves fl s vs g1 = (rows, g2)"
    by (cases "map_octaves fl s vs g1")
  have g2: "g2 = \<lparr>KEYNB = KEYNB g1 + int (12 * length vs),
       FREQ = (semitone_up fl s ^^ (12 * length vs)) (FREQ g1)\<rparr>"
    and rows: "concat rows = map (generated fl s vs g1) [0..<12 * length vs]"
    using Cons.IH [of g1] rest by simp_all
  have all: "map_octaves fl s (v # vs) g = (row # rows, g2)"
    by (simp add: keys rest)
  have first: "row = map (generated fl s (v # vs) g) [0..<12]"
    unfolding row_def by (rule map_cong) (simp_all add: generated_def)
  have pow: "(semitone_up fl s ^^ Suc i) ((semitone_up fl s ^^ 12) x)
      = (semitone_up fl s ^^ Suc (i + 12)) x" for i x
    using funpow_add [of "Suc i" 12 "semitone_up fl s"] by (simp del: funpow.simps)
  have shift: "generated fl s vs g1 = (\<lambda>i. generated fl s (v # vs) g (i + 12))"
    by (rule ext) (simp add: generated_def g1_def pow del: funpow.simps)
  have "concat (row # rows) = map (generated fl s (v # vs) g) [0..<12 + 12 * length vs]"
    by (simp only: concat.simps rows first split_upt_12 shift)
  moreover have "g2 = \<lparr>KEYNB = KEYNB g + int (12 * length (v # vs)),
       FREQ = (semitone_up fl s ^^ (12 * length (v # vs))) (FREQ g)\<rparr>"
  proof -
    have "(semitone_up fl s ^^ (12 * length vs)) ((semitone_up fl s ^^ 12) (FREQ g))
        = (semitone_up fl s ^^ (12 * length vs + 12)) (FREQ g)"
      by (simp only: funpow_add o_apply)
    then show ?thesis by (simp add: g2 g1_def add.commute)
  qed
  ultimately show ?case unfolding all by simp
qed

lemma dropRightWhile_index: "dropRightWhile (\<lambda>e i. i \<ge> n) xs = take n xs"
proof (induction "\<lambda>(e::'a) i::nat. i \<ge> n" xs rule: dropRightWhile.induct)
  case (1 xs)
  show ?case
  proof (cases "xs \<noteq> [] \<and> length xs - 1 \<ge> n")
    case True
    then have "dropRightWhile (\<lambda>e i. i \<ge> n) xs = take n (butlast xs)"
      using 1 by (subst dropRightWhile.simps) simp
    also have "\<dots> = take n xs"
    proof -
      have "n < length xs" using True by (cases xs) auto
      then show ?thesis by (rule take_butlast)
    qed
    finally show ?thesis .
  next
    case False
    then have "dropRightWhile (\<lambda>e i. i \<ge> n) xs = xs"
      by (subst dropRightWhile.simps) auto
    moreover have "take n xs = xs"
      using False by (cases xs) auto
    ultimately show ?thesis by simp
  qed
qed

lemma DICT_OCTAVES_upt: "DICT_OCTAVES = [0..<9]"
  by (simp add: DICT_OCTAVES_def upt_conv_Cons)

lemma getNotesInfo_eq: "getNotesInfo fl s = map (key_entry fl s) [0..<88]"
proof -
  define g where "g = \<lparr>KEYNB = 0, FREQ = fl 25.95654359874657\<rparr>"
  have "getNotesInfo fl s = take 88 (map (generated fl s DICT_OCTAVES g) [0..<12 * length DICT_OCTAVES])"
    unfolding getNotesInfo_def g_def [symmetric]
    by (simp only: dropRightWhile_index conjunct2 [OF map_octaves_eq])
  also have "\<dots> = map (generated fl s DICT_OCTAVES g) [0..<88]"
    by (simp add: take_map DICT_OCTAVES_upt)
  also have "\<dots> = map (key_entry fl s) [0..<88]"
  proof (rule map_cong [OF refl])
    fix i assume "i \<in> set [0..<88]"
    then have "i div 12 < 9" by auto
    then show "generated fl s DICT_OCTAVES g i = key_entry fl s i"
      by (simp add: generated_def key_entry_def freq_at_def g_def DICT_OCTAVES_upt del: funpow.simps)
  qed
  finally show ?thesis .
qed

lemma length_getNotesInfo: "length (getNotesInfo fl s) = 88"
  by (simp add: getNotesInfo_eq)

lemma nth_getNotesInfo: "i < 88 \<Longrightarrow> getNotesInfo fl s ! i = key_entry fl s i"
  by (simp add: getNotesInfo_eq)

lemma distinct_DICT_KEYS: "distinct DICT_KEYS"
  by (simp add: DICT_KEYS_def)

lemma digit_char_inj: "a < 10 \<Longrightarrow> b < 10 \<Longrightarrow> digit_char a = digit_char b \<Longrightarrow> a = b"
proof -
  assume a: "a < 10" and b: "b < 10" and eq: "digit_char a = digit_char b"
  have d: "distinct ''0123456789''" by simp
  have "length ''0123456789'' = 10" by simp
  with a b eq d show "a = b"
    unfolding digit_char_def by (simp only: nth_eq_iff_index_eq)
qed

lemma name_key_entry: "i < 88 \<Longrightarrow> obj.name (key_entry fl s i) = DICT_KEYS ! (i mod 12) @ [digit_char (i div 12)]"
proof -
  assume "i < 88"
  then have "i div 12 < 10" by auto
  then show ?thesis by (simp add: key_entry_def string_of_nat.simps)
qed

lemma name_key_entry_inj:
  assumes "i < 88" "j < 88" "obj.name (key_entry fl s i) = obj.name (key_entry fl s j)"
  shows "i = j"
proof -
  from assms have k: "DICT_KEYS ! (i mod 12) = DICT_KEYS ! (j mod 12)"
    and d: "digit_char (i div 12) = digit_char (j div 12)"
    by (simp_all add: name_key_entry)
  have "i mod 12 < length DICT_KEYS" "j mod 12 < length DICT_KEYS"
    by (simp_all add: length_DICT_KEYS)
  with k have m: "i mod 12 = j mod 12"
    using distinct_DICT_KEYS by (simp only: nth_eq_iff_index_eq)
  have "i div 12 < 10" "j div 12 < 10" using assms by auto
  with d have "i div 12 = j div 12" by (rule digit_char_inj [rotated 2])
  with m show ?thesis by (metis div_mult_mod_eq)
qed

lemma names_distinct: "distinct (map obj.name (getNotesInfo fl s))"
proof -
  have "inj_on (\<lambda>i. obj.name (key_entry fl s i)) (set [0..<88])"
    by (rule inj_onI) (auto intro: name_key_entry_inj)
  then show ?thesis
    by (simp add: getNotesInfo_eq distinct_map o_def del: upt_Suc set_upt)
qed

lemma keynbs: "map keynb (getNotesInfo fl s) = [1..88]"
proof -
  have "map keynb (getNotesInfo fl s) = map (\<lambda>i. int i + 1) [0..<88]"
    by (simp add: getNotesInfo_eq key_entry_def o_def)
  also have "\<dots> = [1..88]"
    by (rule nth_equalityI) simp_all
  finally show ?thesis .
qed


section \<open>The frequencies\<close>

text \<open>A rounded operation on a non-negative number stays within the relative error.\<close>

lemma rounding_bounds:
  assumes "ieee_rounding fl" "0 \<le> x"
  shows "x * (1 - 1 / 2 ^ 53) \<le> fl x" and "fl x \<le> x * (1 + 1 / 2 ^ 53)"
proof -
  define u :: real where "u = 1 / 2 ^ 53"
  have "\<bar>fl x - x\<bar> \<le> \<bar>x\<bar> / 2 ^ 53"
    using assms(1) unfolding ieee_rounding_def by blast
  then have "\<bar>fl x - x\<bar> \<le> x * u"
    using assms(2) by (simp add: u_def)
  then have "x * (1 - u) \<le> fl x" and "fl x \<le> x * (1 + u)"
    by (simp_all add: algebra_simps abs_le_iff)
  then show "x * (1 - 1 / 2 ^ 53) \<le> fl x" and "fl x \<le> x * (1 + 1 / 2 ^ 53)"
    unfolding u_def by blast+
qed

lemma root_12_2_bounds: "1.05946309435 \<le> root 12 2" "root 12 2 \<le> 1.05946309436"
proof -
  have "(1.05946309435::real) ^ 12 \<le> 2" by (simp add: power_divide)
  then have "root 12 (1.05946309435 ^ 12) \<le> root 12 2"
    by (simp only: real_root_le_iff zero_less_numeral)
  then show "1.05946309435 \<le> root 12 2"
    by (simp add: real_root_power_cancel)
  have "(2::real) \<le> 1.05946309436 ^ 12" by (simp add: power_divide)
  then have "root 12 2 \<le> root 12 (1.05946309436 ^ 12)"
    by (simp only: real_root_le_iff zero_less_numeral)
  then show "root 12 2 \<le> 1.05946309436"
    by (simp add: real_root_power_cancel)
qed

lemma semitone_bounds:
  assumes "semitone_ratio s"
  shows "1.0594630943 \<le> s * (1 - 1 / 2 ^ 53)" and "s * (1 + 1 / 2 ^ 53) \<le> 1.0594630944"
    and "0 < s"
proof -
  have "root 12 2 - 1 / 10 ^ 15 \<le> s" and "s \<le> root 12 2 + 1 / 10 ^ 15"
    using assms unfolding semitone_ratio_def abs_le_iff by linarith+
  then have lo: "1.05946309435 - 1 / 10 ^ 15 \<le> s" and hi: "s \<le> 1.05946309436 + 1 / 10 ^ 15"
    using root_12_2_bounds by linarith+
  show "1.0594630943 \<le> s * (1 - 1 / 2 ^ 53)" using lo by simp
  show "s * (1 + 1 / 2 ^ 53) \<le> 1.0594630944" using hi by simp
  show "0 < s" using lo by simp
qed

lemma semitone_up_bounds:
  assumes "ieee_rounding fl" "semitone_ratio s" "0 \<le> x"
  shows "x * 1.0594630943 \<le> semitone_up fl s x" and "semitone_up fl s x \<le> x * 1.0594630944"
proof -
  have xs: "0 \<le> x * s" using assms(3) semitone_bounds(3) [OF assms(2)] by simp
  have "x * 1.0594630943 \<le> x * (s * (1 - 1 / 2 ^ 53))"
    using semitone_bounds(1) [OF assms(2)] assms(3) by (rule mult_left_mono)
  also have "\<dots> = (x * s) * (1 - 1 / 2 ^ 53)" by (simp only: mult.assoc)
  also have "\<dots> \<le> fl (x * s)" by (rule rounding_bounds(1) [OF assms(1) xs])
  finally show "x * 1.0594630943 \<le> semitone_up fl s x" by (simp only: semitone_up_def)
  have "fl (x * s) \<le> (x * s) * (1 + 1 / 2 ^ 53)" by (rule rounding_bounds(2) [OF assms(1) xs])
  also have "\<dots> = x * (s * (1 + 1 / 2 ^ 53))" by (simp only: mult.assoc)
  also have "\<dots> \<le> x * 1.0594630944"
    using semitone_bounds(2) [OF assms(2)] assms(3) by (rule mult_left_mono)
  finally show "semitone_up fl s x \<le> x * 1.0594630944" by (simp only: semitone_up_def)
qed

lemma freq_at_0: "freq_at fl s 0 = fl 25.95654359874657"
  by (simp add: freq_at_def)

lemma freq_at_Suc: "freq_at fl s (Suc k) = semitone_up fl s (freq_at fl s k)"
  by (simp add: freq_at_def)

lemma freq_at_bounds:
  assumes "ieee_rounding fl" "semitone_ratio s"
  shows "25.9565435987465 * 1.0594630943 ^ k \<le> freq_at fl s k
       \<and> freq_at fl s k \<le> 25.9565435987466 * 1.0594630944 ^ k"
proof (induction k)
  case 0
  have "(25.95654359874657::real) * (1 - 1 / 2 ^ 53) \<le> fl 25.95654359874657"
    and "fl 25.95654359874657 \<le> (25.95654359874657::real) * (1 + 1 / 2 ^ 53)"
    using rounding_bounds [OF assms(1), of "25.95654359874657"] by simp_all
  then show ?case by (simp add: freq_at_0)
next
  case (Suc k)
  let ?x = "freq_at fl s k"
  have "(0::real) \<le> 25.9565435987465 * 1.0594630943 ^ k" by simp
  with Suc have pos: "0 \<le> ?x" by linarith
  have "(25.9565435987465::real) * 1.0594630943 ^ Suc k
      = (25.9565435987465 * 1.0594630943 ^ k) * 1.0594630943"
    by (simp only: power_Suc mult_ac)
  also have "\<dots> \<le> ?x * 1.0594630943"
    using Suc by (simp only: mult_le_cancel_right) simp
  also have "\<dots> \<le> freq_at fl s (Suc k)"
    unfolding freq_at_Suc by (rule semitone_up_bounds(1) [OF assms pos])
  finally have lo: "25.9565435987465 * 1.0594630943 ^ Suc k \<le> freq_at fl s (Suc k)" .
  have "freq_at fl s (Suc k) \<le> ?x * 1.0594630944"
    unfolding freq_at_Suc by (rule semitone_up_bounds(2) [OF assms pos])
  also have "\<dots> \<le> (25.9565435987466 * 1.0594630944 ^ k) * 1.0594630944"
    using Suc by (simp only: mult_le_cancel_right) simp
  also have "\<dots> = 25.9565435987466 * 1.0594630944 ^ Suc k"
    by (simp only: power_Suc mult_ac)
  finally have hi: "freq_at fl s (Suc k) \<le> 25.9565435987466 * 1.0594630944 ^ Suc k" .
  from lo hi show ?case by blast
qed

lemma freq_at_pos:
  assumes "ieee_rounding fl" "semitone_ratio s"
  shows "0 < freq_at fl s k"
proof -
  have "(0::real) < 25.9565435987465 * 1.0594630943 ^ k" by simp
  with freq_at_bounds [OF assms, of k] show ?thesis by linarith
qed

lemma freq_at_Suc_greater:
  assumes "ieee_rounding fl" "semitone_ratio s"
  shows "freq_at fl s k < freq_at fl s (Suc k)"
proof -
  have pos: "0 < freq_at fl s k" by (rule freq_at_pos [OF assms])
  then have "freq_at fl s k < freq_at fl s k * 1.0594630943" by simp
  also have "\<dots> \<le> freq_at fl s (Suc k)"
    unfolding freq_at_Suc using pos by (intro semitone_up_bounds(1) [OF assms]) simp
  finally show ?thesis .
qed

lemma freq_at_strict_mono:
  assumes "ieee_rounding fl" "semitone_ratio s" "i < j"
  shows "freq_at fl s i < freq_at fl s j"
  using assms(3)
proof (induction j)
  case 0
  then show ?case by simp
next
  case (Suc j)
  have step: "freq_at fl s j < freq_at fl s (Suc j)" by (rule freq_at_Suc_greater [OF assms(1,2)])
  show ?case
  proof (cases "i = j")
    case True
    with step show ?thesis by simp
  next
    case False
    with Suc.prems have "i < j" by simp
    then have "freq_at fl s i < freq_at fl s j" by (rule Suc.IH)
    with step show ?thesis by simp
  qed
qed

lemma power_49: "(x::real) ^ 49 = (x ^ 12) ^ 4 * x"
proof -
  have "x ^ (12 * 4 + 1) = (x ^ 12) ^ 4 * x"
    by (simp only: power_add power_mult power_one_right)
  then show ?thesis by simp
qed

lemma power_88: "(x::real) ^ 88 = (x ^ 11) ^ 8"
proof -
  have "x ^ (11 * 8) = (x ^ 11) ^ 8" by (simp only: power_mult)
  then show ?thesis by simp
qed

lemma freq_at_49:
  assumes "ieee_rounding fl" "semitone_ratio s"
  shows "\<bar>freq_at fl s 49 - 440\<bar> \<le> 440 / 10 ^ 6"
proof -
  have "(1.999999998::real) \<le> 1.0594630943 ^ 12" by (simp add: power_divide)
  then have "(1.999999998::real) ^ 4 \<le> (1.0594630943 ^ 12) ^ 4"
    by (rule power_mono) simp
  then have p: "(1.999999998::real) ^ 4 * 1.0594630943 \<le> 1.0594630943 ^ 49"
    by (simp only: power_49 mult_le_cancel_right) simp
  have "(439.9999::real) \<le> 25.9565435987465 * (1.999999998 ^ 4 * 1.0594630943)"
    by (simp add: power_divide)
  also have "\<dots> \<le> 25.9565435987465 * 1.0594630943 ^ 49"
    by (rule mult_left_mono [OF p]) simp
  also have "\<dots> \<le> freq_at fl s 49"
    using freq_at_bounds [OF assms, of 49] by (rule conjunct1)
  finally have lo: "439.9999 \<le> freq_at fl s 49" .
  have "(1.0594630944::real) ^ 12 \<le> 2.000000002" by (simp add: power_divide)
  then have "((1.0594630944::real) ^ 12) ^ 4 \<le> 2.000000002 ^ 4"
    by (rule power_mono) simp
  then have q: "(1.0594630944::real) ^ 49 \<le> 2.000000002 ^ 4 * 1.0594630944"
    by (simp only: power_49 mult_le_cancel_right) simp
  have "freq_at fl s 49 \<le> 25.9565435987466 * 1.0594630944 ^ 49"
    using freq_at_bounds [OF assms, of 49] by (rule conjunct2)
  also have "\<dots> \<le> 25.9565435987466 * (2.000000002 ^ 4 * 1.0594630944)"
    by (rule mult_left_mono [OF q]) simp
  also have "\<dots> \<le> 440.0001" by (simp add: power_divide)
  finally have hi: "freq_at fl s 49 \<le> 440.0001" .
  show ?thesis unfolding abs_le_iff using lo hi by simp
qed

lemma freq_at_1_above_20:
  assumes "ieee_rounding fl" "semitone_ratio s"
  shows "20 < freq_at fl s 1"
proof -
  have "(20::real) < 25.9565435987465 * 1.0594630943 ^ 1" by simp
  also have "\<dots> \<le> freq_at fl s 1"
    using freq_at_bounds [OF assms, of 1] by (rule conjunct1)
  finally show ?thesis .
qed

lemma freq_at_88_below_5000:
  assumes "ieee_rounding fl" "semitone_ratio s"
  shows "freq_at fl s 88 < 5000"
proof -
  have "(1.0594630944::real) ^ 11 \<le> 1.9" by (simp add: power_divide)
  then have "((1.0594630944::real) ^ 11) ^ 8 \<le> 1.9 ^ 8"
    by (rule power_mono) simp
  then have q: "(1.0594630944::real) ^ 88 \<le> 1.9 ^ 8" by (simp only: power_88)
  have "freq_at fl s 88 \<le> 25.9565435987466 * 1.0594630944 ^ 88"
    using freq_at_bounds [OF assms, of 88] by (rule conjunct2)
  also have "\<dots> \<le> 25.9565435987466 * 1.9 ^ 8"
    by (rule mult_left_mono [OF q]) simp
  also have "\<dots> < 5000" by (simp add: power_divide)
  finally show ?thesis .
qed


section \<open>Looking an entry up\<close>

lemma find_unique:
  "distinct (map f xs) \<Longrightarrow> i < length xs \<Longrightarrow> find (\<lambda>e. f e = f (xs ! i)) xs = Some (xs ! i)"
proof (induction xs arbitrary: i)
  case Nil
  then show ?case by simp
next
  case (Cons x xs)
  show ?case
  proof (cases i)
    case 0
    then show ?thesis by simp
  next
    case (Suc j)
    with Cons.prems have j: "j < length xs" and d: "distinct (map f xs)"
      and "f x \<notin> f ` set xs" by simp_all
    then have "f x \<noteq> f (xs ! j)" by (metis imageI nth_mem)
    then show ?thesis using Cons.IH [OF d j] Suc by simp
  qed
qed

lemma find_name:
  assumes "i < 88"
  shows "find (\<lambda>e. obj.name e = obj.name (key_entry fl s i)) (getNotesInfo fl s)
       = Some (key_entry fl s i)"
  using find_unique [OF names_distinct, of i fl s] assms
  by (simp add: length_getNotesInfo nth_getNotesInfo)

lemma keynbs_distinct: "distinct (map keynb (getNotesInfo fl s))"
  by (simp add: keynbs)

lemma find_keynb:
  "find (\<lambda>e. keynb e = k) (getNotesInfo fl s)
     = (if 1 \<le> k \<and> k \<le> 88 then Some (key_entry fl s (nat (k - 1))) else None)"
proof (cases "1 \<le> k \<and> k \<le> 88")
  case True
  then have i: "nat (k - 1) < 88" by linarith
  have "keynb (key_entry fl s (nat (k - 1))) = k"
    using True by (simp add: key_entry_def)
  then show ?thesis
    using find_unique [OF keynbs_distinct, of "nat (k - 1)" fl s] i True
    by (simp add: length_getNotesInfo nth_getNotesInfo)
next
  case False
  have "\<not> (\<exists>e. e \<in> set (getNotesInfo fl s) \<and> keynb e = k)"
  proof
    assume "\<exists>e. e \<in> set (getNotesInfo fl s) \<and> keynb e = k"
    then have "k \<in> set (map keynb (getNotesInfo fl s))" by auto
    then show False using False by (simp add: keynbs)
  qed
  then have "find (\<lambda>e. keynb e = k) (getNotesInfo fl s) = None"
    by (simp add: find_None_iff)
  with False show ?thesis by auto
qed

lemma name_in_table:
  assumes "e \<in> set (getNotesInfo fl s)"
  shows "\<exists>k d. k \<in> set DICT_KEYS \<and> d < 8 \<and> obj.name e = k @ [digit_char d]"
proof -
  from assms obtain i where i: "i < 88" and e: "e = key_entry fl s i"
    by (auto simp: getNotesInfo_eq)
  have "DICT_KEYS ! (i mod 12) \<in> set DICT_KEYS"
    by (rule nth_mem) (simp add: length_DICT_KEYS)
  moreover have "i div 12 < 8" using i by auto
  ultimately show ?thesis using i e by (auto simp: name_key_entry)
qed

lemma Z9_not_in_table: "find (\<lambda>e. obj.name e = ''Z9'') (getNotesInfo fl s) = None"
proof -
  have "obj.name e \<noteq> ''Z9''" if "e \<in> set (getNotesInfo fl s)" for e
  proof
    assume z: "obj.name e = ''Z9''"
    from name_in_table [OF that] obtain k d where "k \<in> set DICT_KEYS" "obj.name e = k @ [d]"
      by blast
    with z have "''Z'' \<in> set DICT_KEYS" by (cases k) auto
    then show False by (simp add: DICT_KEYS_def)
  qed
  then show ?thesis by (auto simp: find_None_iff)
qed

lemma digit_value_digit_char: "d < 10 \<Longrightarrow> digit_value (digit_char d) = Some d"
proof -
  assume d: "d < 10"
  have m: "map digit_char [0..<10] = ''0123456789''"
    by (simp add: digit_char_def upt_conv_Cons)
  have "distinct (map digit_char [0..<10])" unfolding m by simp
  from find_unique [OF this, of d] d show ?thesis by (simp add: digit_value_def)
qed

section \<open>The closest entry\<close>

lemma closer_cases: "closer fl x a c = a \<or> closer fl x a c = c"
  by (simp add: closer_def)

lemma foldl_closer_mem: "foldl (closer fl x) a es \<in> set (a # es)"
proof (induction es arbitrary: a)
  case Nil
  show ?case by simp
next
  case (Cons c cs)
  from Cons.IH [of "closer fl x a c"] closer_cases [of fl x a c] show ?case by auto
qed

lemma foldl_closer_NaN: "foldl (closer fl NaN) a es = a"
  by (induction es) (simp_all add: closer_def)

lemma rounding_zero:
  assumes "ieee_rounding fl"
  shows "fl y = 0 \<longleftrightarrow> y = 0"
proof
  assume "fl y = 0"
  moreover have "\<bar>fl y - y\<bar> \<le> \<bar>y\<bar> / 2 ^ 53"
    using assms unfolding ieee_rounding_def by blast
  ultimately have "\<bar>y\<bar> \<le> \<bar>y\<bar> / 2 ^ 53" by simp
  then show "y = 0" by simp
next
  assume "y = 0"
  moreover have "\<bar>fl y - y\<bar> \<le> \<bar>y\<bar> / 2 ^ 53"
    using assms unfolding ieee_rounding_def by blast
  ultimately show "fl y = 0" by simp
qed

lemma closer_Num:
  "closer fl (Num f) a c = (if \<bar>fl (freq c - f)\<bar> < \<bar>fl (freq a - f)\<bar> then c else a)"
  by (simp add: closer_def)

lemma foldl_closer_exact:
  assumes "ieee_rounding fl" "e \<in> set (a # es)" "freq e = f"
    and "\<And>y. y \<in> set (a # es) \<Longrightarrow> freq y = f \<Longrightarrow> y = e"
  shows "foldl (closer fl (Num f)) a es = e"
  using assms(2,4)
proof (induction es arbitrary: a)
  case Nil
  then show ?case by simp
next
  case (Cons c cs)
  have zero: "fl (freq e - f) = 0" using assms(1,3) by (simp add: rounding_zero)
  have a': "closer fl (Num f) a c \<in> {a, c}" using closer_cases [of fl "Num f" a c] by auto
  have mem: "e \<in> set (closer fl (Num f) a c # cs)"
  proof (cases "e \<in> set cs")
    case True
    then show ?thesis by simp
  next
    case False
    show ?thesis
    proof (cases "e = a")
      case True
      then have "closer fl (Num f) a c = a" using zero by (simp add: closer_Num)
      with True show ?thesis by simp
    next
      case False
      with \<open>e \<notin> set cs\<close> Cons.prems(1) have ec: "e = c" by simp
      have "freq a \<noteq> f" using Cons.prems(2) [of a] False by auto
      then have "fl (freq a - f) \<noteq> 0" using assms(1) by (simp add: rounding_zero)
      then have "closer fl (Num f) a c = c" using zero ec by (simp add: closer_Num)
      with ec show ?thesis by simp
    qed
  qed
  have uniq: "y = e" if "y \<in> set (closer fl (Num f) a c # cs)" "freq y = f" for y
    using that a' Cons.prems(2) [of y] by auto
  have "foldl (closer fl (Num f)) (closer fl (Num f) a c) cs = e"
    using mem uniq by (rule Cons.IH)
  then show ?case by simp
qed

lemma table_hd_tl: "hd (getNotesInfo fl s) # tl (getNotesInfo fl s) = getNotesInfo fl s"
  using length_getNotesInfo [of fl s] by (cases "getNotesInfo fl s") simp_all

lemma table_mem: "e \<in> set (getNotesInfo fl s) \<longleftrightarrow> (\<exists>i<88. e = key_entry fl s i)"
  by (auto simp: getNotesInfo_eq)

lemma closest_in_table:
  "foldl (closer fl x) (hd (getNotesInfo fl s)) (tl (getNotesInfo fl s)) \<in> set (getNotesInfo fl s)"
  using foldl_closer_mem [of fl x "hd (getNotesInfo fl s)" "tl (getNotesInfo fl s)"]
  by (simp only: table_hd_tl)

lemma freq_key_entry_inj:
  assumes "ieee_rounding fl" "semitone_ratio s" "freq (key_entry fl s i) = freq (key_entry fl s j)"
  shows "i = j"
proof (rule ccontr)
  assume "i \<noteq> j"
  then consider "Suc i < Suc j" | "Suc j < Suc i" by linarith
  then show False
  proof cases
    case 1
    from freq_at_strict_mono [OF assms(1,2) this] assms(3) show False by (simp add: key_entry_def)
  next
    case 2
    from freq_at_strict_mono [OF assms(1,2) this] assms(3) show False by (simp add: key_entry_def)
  qed
qed

lemma freq_key_entry_mono:
  assumes "ieee_rounding fl" "semitone_ratio s" "i \<le> j"
  shows "freq (key_entry fl s i) \<le> freq (key_entry fl s j)"
proof (cases "i = j")
  case True
  then show ?thesis by simp
next
  case False
  with assms(3) have "Suc i < Suc j" by simp
  from freq_at_strict_mono [OF assms(1,2) this] show ?thesis by (simp add: key_entry_def)
qed

lemma closest_exact:
  assumes "ieee_rounding fl" "semitone_ratio s" "i < 88"
  shows "foldl (closer fl (Num (freq (key_entry fl s i)))) (hd (getNotesInfo fl s)) (tl (getNotesInfo fl s))
       = key_entry fl s i"
proof (rule foldl_closer_exact [OF assms(1) _ refl])
  show "key_entry fl s i \<in> set (hd (getNotesInfo fl s) # tl (getNotesInfo fl s))"
    using assms(3) by (simp only: table_hd_tl table_mem) blast
next
  fix y
  assume "y \<in> set (hd (getNotesInfo fl s) # tl (getNotesInfo fl s))"
    and f: "freq y = freq (key_entry fl s i)"
  then obtain j where "j < 88" and y: "y = key_entry fl s j"
    by (simp only: table_hd_tl table_mem) blast
  from f have "j = i" unfolding y by (rule freq_key_entry_inj [OF assms(1,2)])
  then show "y = key_entry fl s i" using y by simp
qed

section \<open>What the builders return\<close>

lemma new_notePlayer_fields:
  "pianoKeyNb (fst (new_notePlayer w r ob)) = keynb ob"
  "frequency (fst (new_notePlayer w r ob)) = freq ob"
  "octave (fst (new_notePlayer w r ob)) = substr_last (obj.name ob)"
  "name (fst (new_notePlayer w r ob)) = obj.name ob"
  "duration (fst (new_notePlayer w r ob)) = Val r"
  "volume (fst (new_notePlayer w r ob)) = Val 1"
  by (simp_all add: new_notePlayer_def Let_def split: js.split)

lemma buildFromKeyNb_eq:
  "buildFromKeyNb fl s w r k ctx =
     (if 1 \<le> k \<and> k \<le> 88
      then (Inr (fst (new_notePlayer w r ((key_entry fl s (nat (k - 1)))\<lparr>obj.audioContext := ctx\<rparr>))),
            snd (new_notePlayer w r ((key_entry fl s (nat (k - 1)))\<lparr>obj.audioContext := ctx\<rparr>)))
      else (Inl (Uncaught TypeError), w))"
  by (simp add: buildFromKeyNb_def find_keynb split: prod.split)

lemma buildFromName_entry:
  assumes "i < 88"
  shows "buildFromName fl s w r (obj.name (key_entry fl s i)) ctx =
     (Inr (fst (new_notePlayer w r ((key_entry fl s i)\<lparr>obj.audioContext := ctx\<rparr>))),
      snd (new_notePlayer w r ((key_entry fl s i)\<lparr>obj.audioContext := ctx\<rparr>)))"
  by (simp add: buildFromName_def find_name [OF assms] split: prod.split)

lemma name_key_entry_0: "obj.name (key_entry fl s 0) = ''A0''"
  by (simp add: name_key_entry DICT_KEYS_def digit_char_def)

lemma name_key_entry_3: "obj.name (key_entry fl s 3) = ''C0''"
  by (simp add: name_key_entry DICT_KEYS_def digit_char_def)

lemma name_key_entry_48: "obj.name (key_entry fl s 48) = ''A4''"
  by (simp add: name_key_entry DICT_KEYS_def digit_char_def)

lemma name_key_entry_87: "obj.name (key_entry fl s 87) = ''C7''"
  by (simp add: name_key_entry DICT_KEYS_def digit_char_def)

lemma freqs_increasing:
  assumes "ieee_rounding fl" "semitone_ratio s"
  shows "sorted_wrt (<) (map freq (getNotesInfo fl s))"
proof -
  have "freq (key_entry fl s i) < freq (key_entry fl s j)" if "i < j" for i j
    using freq_at_strict_mono [OF assms, of "Suc i" "Suc j"] that by (simp add: key_entry_def)
  then show ?thesis
    by (simp add: getNotesInfo_eq sorted_wrt_map sorted_wrt_iff_nth_less del: upt_Suc)
qed

lemma ieee_rounding_id: "ieee_rounding id"
  by (simp add: ieee_rounding_def)

lemma semitone_ratio_root: "semitone_ratio (root 12 2)"
  by (simp add: semitone_ratio_def)

lemma buildFromName_found:
  assumes "e \<in> set (getNotesInfo fl s)"
  shows "\<exists>j<88. buildFromName fl s w r (obj.name e) ctx =
     (Inr (fst (new_notePlayer w r ((key_entry fl s j)\<lparr>obj.audioContext := ctx\<rparr>))),
      snd (new_notePlayer w r ((key_entry fl s j)\<lparr>obj.audioContext := ctx\<rparr>)))"
proof -
  from assms obtain j where "j < 88" "e = key_entry fl s j" by (auto simp: table_mem)
  then show ?thesis using buildFromName_entry [of j fl s w r ctx] by auto
qed

lemma buildFromFrequency_out_of_range:
  assumes "js_lt x (Num (freq (getNotesInfo fl s ! 0))) \<or> js_lt (Num (freq (getNotesInfo fl s ! 87))) x"
  shows "buildFromFrequency fl s w r x ctx =
     (Inl Returned_null, w\<lparr>console := console w @ [NOTEPLAYER_ERROR (Invalid_frequency x)]\<rparr>)"
proof -
  have "getNotesInfo fl s \<noteq> []" using length_getNotesInfo [of fl s] by auto
  then show ?thesis using assms
    by (simp add: buildFromFrequency_def Let_def length_getNotesInfo)
qed

lemma buildFromFrequency_in_range:
  assumes "\<not> (js_lt x (Num (freq (getNotesInfo fl s ! 0))) \<or> js_lt (Num (freq (getNotesInfo fl s ! 87))) x)"
  shows "buildFromFrequency fl s w r x ctx =
     buildFromName fl s
       (w\<lparr>console := console w @
           [Closest_frequency (freq (foldl (closer fl x) (hd (getNotesInfo fl s)) (tl (getNotesInfo fl s))))
              (obj.name (foldl (closer fl x) (hd (getNotesInfo fl s)) (tl (getNotesInfo fl s))))]\<rparr>)
       r (obj.name (foldl (closer fl x) (hd (getNotesInfo fl s)) (tl (getNotesInfo fl s)))) ctx"
proof -
  have "getNotesInfo fl s \<noteq> []" using length_getNotesInfo [of fl s] by auto
  then show ?thesis using assms
    by (simp add: buildFromFrequency_def Let_def length_getNotesInfo)
qed

lemma new_notePlayer_Null:
  "audioContext (fst (new_notePlayer w r (e\<lparr>obj.audioContext := Null\<rparr>))) = Null"
  "destinationNode (fst (new_notePlayer w r (e\<lparr>obj.audioContext := Null\<rparr>))) = Undefined"
  "snd (new_notePlayer w r (e\<lparr>obj.audioContext := Null\<rparr>)) = w\<lparr>console := console w @ [Error TypeError]\<rparr>"
  by (simp_all add: new_notePlayer_def Let_def)

lemma new_notePlayer_Undefined:
  "audioContext (fst (new_notePlayer w r (e\<lparr>obj.audioContext := Undefined\<rparr>)))
     = (if AudioContext_available w then Val (AudioContext (created w)) else Undefined)"
  "destinationNode (fst (new_notePlayer w r (e\<lparr>obj.audioContext := Undefined\<rparr>)))
     = (if AudioContext_available w then Val (Destination (created w)) else Undefined)"
  "snd (new_notePlayer w r (e\<lparr>obj.audioContext := Undefined\<rparr>))
     = (if AudioContext_available w then w\<lparr>created := created w + 1\<rparr>
        else w\<lparr>console := console w @ [Error TypeError]\<rparr>)"
  by (simp_all add: new_notePlayer_def Let_def)

lemma new_notePlayer_Val:
  "audioContext (fst (new_notePlayer w r (e\<lparr>obj.audioContext := Val c\<rparr>))) = Val c"
  "destinationNode (fst (new_notePlayer w r (e\<lparr>obj.audioContext := Val c\<rparr>))) = Val (destination c)"
  "snd (new_notePlayer w r (e\<lparr>obj.audioContext := Val c\<rparr>)) = w"
  by (simp_all add: new_notePlayer_def Let_def)

lemma buildFromFrequency_NaN:
  "buildFromFrequency fl s w r NaN ctx =
     buildFromName fl s
       (w\<lparr>console := console w @ [Closest_frequency (freq (key_entry fl s 0)) ''A0'']\<rparr>)
       r ''A0'' ctx"
proof -
  have "hd (getNotesInfo fl s) = key_entry fl s 0"
    using nth_getNotesInfo [of 0 fl s] length_getNotesInfo [of fl s]
    by (cases "getNotesInfo fl s") simp_all
  then show ?thesis
    by (subst buildFromFrequency_in_range) (simp_all add: foldl_closer_NaN name_key_entry_0)
qed

lemma builder_result_from_table:
  assumes "fst (buildFromName fl s w r nm ctx) = Inr p
         \<or> fst (buildFromFrequency fl s w r x ctx) = Inr p
         \<or> fst (buildFromKeyNb fl s w r k ctx) = Inr p"
  shows "\<exists>e w1. e \<in> set (getNotesInfo fl s)
           \<and> (w1 = w \<or> (\<exists>m. w1 = w\<lparr>console := console w @ [m]\<rparr>))
           \<and> p = fst (new_notePlayer w1 r (e\<lparr>obj.audioContext := ctx\<rparr>))"
proof -
  have byName: "\<exists>e. e \<in> set (getNotesInfo fl s)
           \<and> p = fst (new_notePlayer w1 r (e\<lparr>obj.audioContext := ctx\<rparr>))"
    if "fst (buildFromName fl s w1 r nm1 ctx) = Inr p" for w1 nm1
  proof (cases "find (\<lambda>e. obj.name e = nm1) (getNotesInfo fl s)")
    case None
    with that show ?thesis by (simp add: buildFromName_def)
  next
    case (Some e)
    then have "e \<in> set (getNotesInfo fl s)" by (auto simp: find_Some_iff)
    moreover have "p = fst (new_notePlayer w1 r (e\<lparr>obj.audioContext := ctx\<rparr>))"
      using that Some by (simp add: buildFromName_def split: prod.splits)
    ultimately show ?thesis by blast
  qed
  from assms consider
      (name) "fst (buildFromName fl s w r nm ctx) = Inr p"
    | (frequency) "fst (buildFromFrequency fl s w r x ctx) = Inr p"
    | (keynb) "fst (buildFromKeyNb fl s w r k ctx) = Inr p"
    by blast
  then show ?thesis
  proof cases
    case name
    from byName [OF this] show ?thesis by blast
  next
    case frequency
    show ?thesis
    proof (cases "js_lt x (Num (freq (getNotesInfo fl s ! 0)))
             \<or> js_lt (Num (freq (getNotesInfo fl s ! 87))) x")
      case True
      from frequency show ?thesis
        unfolding buildFromFrequency_out_of_range [OF True] by simp
    next
      case False
      from frequency obtain e m where "e \<in> set (getNotesInfo fl s)"
        "p = fst (new_notePlayer (w\<lparr>console := console w @ [m]\<rparr>) r (e\<lparr>obj.audioContext := ctx\<rparr>))"
        unfolding buildFromFrequency_in_range [OF False] using byName by blast
      then show ?thesis by blast
    qed
  next
    case keynb
    show ?thesis
    proof (cases "find (\<lambda>e. obj.keynb e = k) (getNotesInfo fl s)")
      case None
      with keynb show ?thesis by (simp add: buildFromKeyNb_def)
    next
      case (Some e)
      then have "e \<in> set (getNotesInfo fl s)" by (auto simp: find_Some_iff)
      moreover have "p = fst (new_notePlayer w r (e\<lparr>obj.audioContext := ctx\<rparr>))"
        using keynb Some by (simp add: buildFromKeyNb_def split: prod.splits)
      ultimately show ?thesis by blast
    qed
  qed
qed

text \<open>What holds of the octave of every note a builder returns: it is the last character
  of the name, as a string, and that character is a digit that stands for a number of at
  most 7.\<close>

lemma octave_is_last_character:
  assumes "fst (buildFromName fl s w r nm ctx) = Inr p
         \<or> fst (buildFromFrequency fl s w r x ctx) = Inr p
         \<or> fst (buildFromKeyNb fl s w r k ctx) = Inr p"
  shows "octave p = [last (name p)]
       \<and> (\<exists>d. digit_value (last (name p)) = Some d \<and> d \<le> 7)"
proof -
  from builder_result_from_table [OF assms] obtain e w1
    where e: "e \<in> set (getNotesInfo fl s)"
      and p: "p = fst (new_notePlayer w1 r (e\<lparr>obj.audioContext := ctx\<rparr>))" by blast
  from name_in_table [OF e] obtain c d where d: "d < 8" and n: "obj.name e = c @ [digit_char d]"
    by blast
  have "name p = c @ [digit_char d]" and "octave p = [digit_char d]"
    using n by (simp_all add: p new_notePlayer_fields substr_last_def)
  moreover have "digit_value (digit_char d) = Some d"
    using d by (simp add: digit_value_digit_char)
  ultimately show ?thesis using d by simp
qed

section \<open>The claims\<close>

text \<open>
  \<^bold>\<open>C1\<close> (the code differs). The claim: \<^verbatim>\<open>buildFromKeyNb(1)\<close> yields a note named \<^verbatim>\<open>"A0"\<close> and
  \<^verbatim>\<open>buildFromKeyNb(88)\<close> one named \<^verbatim>\<open>"C8"\<close>. What the code does, whatever the arithmetic, the
  browser and the handle are: key 1 is named \<^verbatim>\<open>"A0"\<close>, key 4 \<^verbatim>\<open>"C0"\<close> and key 88 \<^verbatim>\<open>"C7"\<close>. The octave
  digit of a name is the index of the run of twelve keys that starts at an A, so it
  changes at A and not at C, and no entry of octave 8 is among the first 88.
\<close>

theorem C1_key_88_is_named_C7:
  "map_sum id name (fst (buildFromKeyNb fl s w r 1 ctx)) = Inr ''A0''
   \<and> map_sum id name (fst (buildFromKeyNb fl s w r 4 ctx)) = Inr ''C0''
   \<and> map_sum id name (fst (buildFromKeyNb fl s w r 88 ctx)) = Inr ''C7''"
  using name_key_entry_0 [of fl s] name_key_entry_3 [of fl s] name_key_entry_87 [of fl s]
  by (simp add: buildFromKeyNb_eq new_notePlayer_fields)

text \<open>
  \<^bold>\<open>C2\<close>. The table has exactly 88 entries, their key numbers are 1, 2, ..., 88 in this
  order, and their frequencies are strictly increasing, under binary64 rounding.
\<close>

theorem C2_table_keys_and_frequencies:
  assumes "ieee_rounding fl" "semitone_ratio s"
  shows "length (getNotesInfo fl s) = 88
       \<and> map keynb (getNotesInfo fl s) = [1..88]
       \<and> sorted_wrt (<) (map freq (getNotesInfo fl s))"
  using length_getNotesInfo keynbs freqs_increasing [OF assms] by blast

text \<open>Exact arithmetic is an instance.\<close>

theorem C2_witness:
  "ieee_rounding id \<and> semitone_ratio (root 12 2)
   \<and> length (getNotesInfo id (root 12 2)) = 88
   \<and> map keynb (getNotesInfo id (root 12 2)) = [1..88]
   \<and> sorted_wrt (<) (map freq (getNotesInfo id (root 12 2)))"
  using C2_table_keys_and_frequencies [OF ieee_rounding_id semitone_ratio_root]
    ieee_rounding_id semitone_ratio_root by blast

text \<open>
  \<^bold>\<open>C3\<close>. \<^verbatim>\<open>buildFromName("A4")\<close> returns a note, its key number is 49, and its frequency
  is within a relative error of \<open>10\<^sup>-\<^sup>6\<close> of 440 Hz, under binary64 rounding, for every
  state of the browser and every handle.
\<close>

theorem C3_A4_is_key_49_at_440_Hz:
  assumes "ieee_rounding fl" "semitone_ratio s"
  shows "\<exists>p w'. buildFromName fl s w r ''A4'' ctx = (Inr p, w')
           \<and> pianoKeyNb p = 49 \<and> \<bar>frequency p - 440\<bar> / 440 \<le> 1 / 10 ^ 6"
proof -
  define p where "p = fst (new_notePlayer w r ((key_entry fl s 48)\<lparr>obj.audioContext := ctx\<rparr>))"
  define w' where "w' = snd (new_notePlayer w r ((key_entry fl s 48)\<lparr>obj.audioContext := ctx\<rparr>))"
  have "buildFromName fl s w r ''A4'' ctx = (Inr p, w')"
    using buildFromName_entry [of 48 fl s w r ctx] by (simp add: name_key_entry_48 p_def w'_def)
  moreover have "pianoKeyNb p = 49"
    by (simp add: p_def new_notePlayer_fields key_entry_def)
  moreover have "frequency p = freq_at fl s 49"
    by (simp add: p_def new_notePlayer_fields key_entry_def)
  moreover have "\<bar>freq_at fl s 49 - 440\<bar> / 440 \<le> 1 / 10 ^ 6"
    using freq_at_49 [OF assms] by simp
  ultimately show ?thesis by auto
qed

text \<open>Exact arithmetic, in a browser that offers \<^verbatim>\<open>AudioContext\<close>, is an instance.\<close>

theorem C3_witness:
  "ieee_rounding id \<and> semitone_ratio (root 12 2)
   \<and> (\<exists>p w'. buildFromName id (root 12 2)
                 \<lparr>AudioContext_available = True, created = 0, console = []\<rparr> 1 ''A4'' Undefined
               = (Inr p, w')
             \<and> pianoKeyNb p = 49 \<and> \<bar>frequency p - 440\<bar> / 440 \<le> 1 / 10 ^ 6)"
  using C3_A4_is_key_49_at_440_Hz [OF ieee_rounding_id semitone_ratio_root]
    ieee_rounding_id semitone_ratio_root by blast

text \<open>
  \<^bold>\<open>C4\<close>. For every index \<open>i\<close> below 88, \<^verbatim>\<open>buildFromFrequency\<close> called with the frequency
  of entry \<open>i\<close> returns a note whose key number is that of entry \<open>i\<close>, under binary64
  rounding: the rounded difference to entry \<open>i\<close> is 0, to every other entry it is not,
  and the names of the table are distinct.
\<close>

theorem C4_frequency_round_trip:
  assumes "ieee_rounding fl" "semitone_ratio s" "i < 88"
  shows "\<exists>p w'. buildFromFrequency fl s w r (Num (freq (getNotesInfo fl s ! i))) ctx = (Inr p, w')
           \<and> pianoKeyNb p = keynb (getNotesInfo fl s ! i)"
proof -
  let ?e = "key_entry fl s i"
  have lo: "\<not> freq ?e < freq (key_entry fl s 0)"
    using freq_key_entry_mono [OF assms(1,2), of 0 i] by simp
  have hi: "\<not> freq (key_entry fl s 87) < freq ?e"
    using freq_key_entry_mono [OF assms(1,2), of i 87] assms(3) by simp
  have "buildFromFrequency fl s w r (Num (freq ?e)) ctx =
      buildFromName fl s
        (w\<lparr>console := console w @ [Closest_frequency (freq ?e) (obj.name ?e)]\<rparr>)
        r (obj.name ?e) ctx"
    using lo hi
    by (subst buildFromFrequency_in_range)
       (simp_all add: nth_getNotesInfo closest_exact [OF assms])
  then show ?thesis
    using assms(3)
    by (simp add: nth_getNotesInfo buildFromName_entry new_notePlayer_fields)
qed

text \<open>Entry 48 with exact arithmetic is an instance.\<close>

theorem C4_witness:
  "ieee_rounding id \<and> semitone_ratio (root 12 2) \<and> (48::nat) < 88
   \<and> (\<exists>p w'. buildFromFrequency id (root 12 2)
                 \<lparr>AudioContext_available = True, created = 0, console = []\<rparr> 1
                 (Num (freq (getNotesInfo id (root 12 2) ! 48))) Undefined = (Inr p, w')
             \<and> pianoKeyNb p = keynb (getNotesInfo id (root 12 2) ! 48))"
proof -
  have "(48::nat) < 88" by simp
  from C4_frequency_round_trip [OF ieee_rounding_id semitone_ratio_root this]
    ieee_rounding_id semitone_ratio_root this
  show ?thesis by blast
qed

text \<open>
  \<^bold>\<open>C5\<close> (the code differs). The claim: a failing call never returns a partial note and
  never falls back on a default. What the code does: with \<^verbatim>\<open>null\<close> as the handle the
  constructor throws at \<^verbatim>\<open>this.audioContext.destination\<close>, logs the error, and
  \<^verbatim>\<open>buildFromName("A4", null)\<close> still returns the note, without a destination node; where
  the browser offers no \<^verbatim>\<open>AudioContext\<close>, \<^verbatim>\<open>buildFromKeyNb(49)\<close> returns a note with neither
  context nor destination; and \<^verbatim>\<open>buildFromFrequency(NaN)\<close> returns the note \<^verbatim>\<open>"A0"\<close>.
\<close>

theorem C5_failed_construction_returns_a_note:
  "map_sum id audioContext (fst (buildFromName fl s w r ''A4'' Null)) = Inr Null
   \<and> map_sum id destinationNode (fst (buildFromName fl s w r ''A4'' Null)) = Inr Undefined
   \<and> snd (buildFromName fl s w r ''A4'' Null) = w\<lparr>console := console w @ [Error TypeError]\<rparr>
   \<and> map_sum id audioContext
        (fst (buildFromKeyNb fl s (w\<lparr>AudioContext_available := False\<rparr>) r 49 Undefined))
       = Inr Undefined
   \<and> map_sum id destinationNode
        (fst (buildFromKeyNb fl s (w\<lparr>AudioContext_available := False\<rparr>) r 49 Undefined))
       = Inr Undefined
   \<and> map_sum id name (fst (buildFromFrequency fl s w r NaN ctx)) = Inr ''A0''"
  using buildFromName_entry [of 48 fl s w r Null]
    buildFromName_entry [of 0 fl s _ r ctx]
  by (simp add: name_key_entry_48 name_key_entry_0 buildFromKeyNb_eq buildFromFrequency_NaN
      new_notePlayer_Null new_notePlayer_Undefined new_notePlayer_fields)

text \<open>
  \<^bold>\<open>C6\<close> (the code differs). The claim: a key number without an entry makes
  \<^verbatim>\<open>buildFromKeyNb\<close> fail in the same shape as the other two builders. What the code does:
  for every key number outside 1..88 (0 and 89 among them) a \<^verbatim>\<open>TypeError\<close> leaves
  \<^verbatim>\<open>buildFromKeyNb\<close> uncaught and nothing is logged, while \<^verbatim>\<open>buildFromName\<close> with the unknown
  name \<^verbatim>\<open>"Z9"\<close> logs the error and returns \<^verbatim>\<open>null\<close>.
\<close>

theorem C6_unknown_key_number_throws:
  "(if 1 \<le> k \<and> k \<le> 88
    then \<exists>p w'. buildFromKeyNb fl s w r k ctx = (Inr p, w')
    else buildFromKeyNb fl s w r k ctx = (Inl (Uncaught TypeError), w))
   \<and> buildFromKeyNb fl s w r 0 ctx = (Inl (Uncaught TypeError), w)
   \<and> buildFromKeyNb fl s w r 89 ctx = (Inl (Uncaught TypeError), w)
   \<and> buildFromName fl s w r ''Z9'' ctx
       = (Inl Returned_null,
          w\<lparr>console := console w @ [NOTEPLAYER_ERROR (Invalid_note_name ''Z9'')]\<rparr>)"
  by (simp add: buildFromKeyNb_eq buildFromName_def Z9_not_in_table)

text \<open>
  \<^bold>\<open>C7\<close>. \<^verbatim>\<open>buildFromFrequency\<close> logs \<^verbatim>\<open>"Invalid frequency (out of range)"\<close> and returns
  \<^verbatim>\<open>null\<close> when the frequency is strictly below that of the first entry or strictly above
  that of entry 87, and returns a note in every other case (both bounds included); 20 and
  5000 are out of range, under binary64 rounding.
\<close>

theorem C7_out_of_range_frequencies:
  assumes "ieee_rounding fl" "semitone_ratio s"
  shows "(if js_lt x (Num (freq (getNotesInfo fl s ! 0)))
             \<or> js_lt (Num (freq (getNotesInfo fl s ! 87))) x
          then buildFromFrequency fl s w r x ctx =
                 (Inl Returned_null,
                  w\<lparr>console := console w @ [NOTEPLAYER_ERROR (Invalid_frequency x)]\<rparr>)
          else (\<exists>p w'. buildFromFrequency fl s w r x ctx = (Inr p, w')))
       \<and> buildFromFrequency fl s w r (Num 20) ctx =
            (Inl Returned_null,
             w\<lparr>console := console w @ [NOTEPLAYER_ERROR (Invalid_frequency (Num 20))]\<rparr>)
       \<and> buildFromFrequency fl s w r (Num 5000) ctx =
            (Inl Returned_null,
             w\<lparr>console := console w @ [NOTEPLAYER_ERROR (Invalid_frequency (Num 5000))]\<rparr>)"
proof (intro conjI)
  show "if js_lt x (Num (freq (getNotesInfo fl s ! 0)))
             \<or> js_lt (Num (freq (getNotesInfo fl s ! 87))) x
          then buildFromFrequency fl s w r x ctx =
                 (Inl Returned_null,
                  w\<lparr>console := console w @ [NOTEPLAYER_ERROR (Invalid_frequency x)]\<rparr>)
          else (\<exists>p w'. buildFromFrequency fl s w r x ctx = (Inr p, w'))"
  proof (cases "js_lt x (Num (freq (getNotesInfo fl s ! 0)))
             \<or> js_lt (Num (freq (getNotesInfo fl s ! 87))) x")
    case True
    then show ?thesis using buildFromFrequency_out_of_range [OF True] by simp
  next
    case False
    from buildFromName_found [OF closest_in_table]
    have "\<exists>p w'. buildFromFrequency fl s w r x ctx = (Inr p, w')"
      unfolding buildFromFrequency_in_range [OF False] by blast
    with False show ?thesis by simp
  qed
next
  have "20 < freq (getNotesInfo fl s ! 0)"
    using freq_at_1_above_20 [OF assms] by (simp add: nth_getNotesInfo key_entry_def)
  then show "buildFromFrequency fl s w r (Num 20) ctx =
            (Inl Returned_null,
             w\<lparr>console := console w @ [NOTEPLAYER_ERROR (Invalid_frequency (Num 20))]\<rparr>)"
    by (intro buildFromFrequency_out_of_range) simp
next
  have "freq (getNotesInfo fl s ! 87) < 5000"
    using freq_at_88_below_5000 [OF assms] by (simp add: nth_getNotesInfo key_entry_def)
  then show "buildFromFrequency fl s w r (Num 5000) ctx =
            (Inl Returned_null,
             w\<lparr>console := console w @ [NOTEPLAYER_ERROR (Invalid_frequency (Num 5000))]\<rparr>)"
    by (intro buildFromFrequency_out_of_range) simp
qed

text \<open>The frequency 440 with exact arithmetic is an instance.\<close>

theorem C7_witness:
  "ieee_rounding id \<and> semitone_ratio (root 12 2)
   \<and> (if js_lt (Num 440) (Num (freq (getNotesInfo id (root 12 2) ! 0)))
             \<or> js_lt (Num (freq (getNotesInfo id (root 12 2) ! 87))) (Num 440)
          then buildFromFrequency id (root 12 2)
                 \<lparr>AudioContext_available = True, created = 0, console = []\<rparr> 1 (Num 440) Undefined =
                 (Inl Returned_null,
                  \<lparr>AudioContext_available = True, created = 0,
                     console = [] @ [NOTEPLAYER_ERROR (Invalid_frequency (Num 440))]\<rparr>)
          else (\<exists>p w'. buildFromFrequency id (root 12 2)
                 \<lparr>AudioContext_available = True, created = 0, console = []\<rparr> 1 (Num 440) Undefined
                  = (Inr p, w')))
   \<and> buildFromFrequency id (root 12 2)
         \<lparr>AudioContext_available = True, created = 0, console = []\<rparr> 1 (Num 20) Undefined =
        (Inl Returned_null,
         \<lparr>AudioContext_available = True, created = 0,
            console = [] @ [NOTEPLAYER_ERROR (Invalid_frequency (Num 20))]\<rparr>)
   \<and> buildFromFrequency id (root 12 2)
         \<lparr>AudioContext_available = True, created = 0, console = []\<rparr> 1 (Num 5000) Undefined =
        (Inl Returned_null,
         \<lparr>AudioContext_available = True, created = 0,
            console = [] @ [NOTEPLAYER_ERROR (Invalid_frequency (Num 5000))]\<rparr>)"
  using C7_out_of_range_frequencies [OF ieee_rounding_id semitone_ratio_root,
      of "Num 440" "\<lparr>AudioContext_available = True, created = 0, console = []\<rparr>" 1 Undefined]
    ieee_rounding_id semitone_ratio_root
  by simp

text \<open>
  \<^bold>\<open>C8\<close> (the code differs). The claim: the octave of every returned note is an integer
  from 1 to 8, the numeric value of the last character of its name. What the code does,
  whatever the arithmetic, the browser and the handle are: the octave of the note that
  \<^verbatim>\<open>buildFromKeyNb(1)\<close> returns is the string \<^verbatim>\<open>"0"\<close>, the last character of \<^verbatim>\<open>"A0"\<close>, which
  stands for 0; and the octave of the note of key 88 is the string \<^verbatim>\<open>"7"\<close>. The docstring of
  the class gives the octave as a number in [1-8].
\<close>

theorem C8_octave_of_key_1_is_the_string_0:
  "map_sum id name (fst (buildFromKeyNb fl s w r 1 ctx)) = Inr ''A0''
   \<and> map_sum id octave (fst (buildFromKeyNb fl s w r 1 ctx)) = Inr ''0''
   \<and> map digit_value ''0'' = [Some 0]
   \<and> map_sum id octave (fst (buildFromKeyNb fl s w r 88 ctx)) = Inr ''7''
   \<and> map digit_value ''7'' = [Some 7]"
proof -
  have "digit_value (digit_char 0) = Some 0" by (rule digit_value_digit_char) simp
  then have zero: "map digit_value ''0'' = [Some 0]" by (simp add: digit_char_def)
  have "digit_value (digit_char 7) = Some 7" by (rule digit_value_digit_char) simp
  then have seven: "map digit_value ''7'' = [Some 7]" by (simp add: digit_char_def)
  show ?thesis
    using name_key_entry_0 [of fl s] name_key_entry_87 [of fl s] zero seven
    by (simp add: buildFromKeyNb_eq new_notePlayer_fields substr_last_def)
qed

text \<open>
  \<^bold>\<open>C9\<close>, as amended. Where the browser offers \<^verbatim>\<open>AudioContext\<close>, a builder that returns a
  note and was given no handle has itself created one new audio context and stored it,
  with its destination, on the note; given a handle, it creates none and stores the
  handle (with its destination, unless the handle is \<^verbatim>\<open>null\<close>).
\<close>

theorem C9_default_context_is_created:
  assumes "AudioContext_available w"
    and "b = buildFromName fl s w r nm ctx
       \<or> b = buildFromFrequency fl s w r x ctx
       \<or> b = buildFromKeyNb fl s w r k ctx"
    and "fst b = Inr p"
  shows "(case ctx of
            Undefined \<Rightarrow> created (snd b) = created w + 1
                \<and> audioContext p = Val (AudioContext (created w))
                \<and> destinationNode p = Val (Destination (created w))
          | Null \<Rightarrow> created (snd b) = created w
                \<and> audioContext p = Null \<and> destinationNode p = Undefined
          | Val c \<Rightarrow> created (snd b) = created w
                \<and> audioContext p = Val c \<and> destinationNode p = Val (destination c))"
proof -
  have byName: "b = (Inr (fst (new_notePlayer w1 r (e\<lparr>obj.audioContext := ctx\<rparr>))),
                     snd (new_notePlayer w1 r (e\<lparr>obj.audioContext := ctx\<rparr>)))"
    if "b = buildFromName fl s w1 r nm1 ctx" "find (\<lambda>e. obj.name e = nm1) (getNotesInfo fl s) = Some e"
    for w1 nm1 e
    using that by (simp add: buildFromName_def split: prod.splits)
  have "\<exists>e w1. AudioContext_available w1 \<and> created w1 = created w
      \<and> b = (Inr (fst (new_notePlayer w1 r (e\<lparr>obj.audioContext := ctx\<rparr>))),
             snd (new_notePlayer w1 r (e\<lparr>obj.audioContext := ctx\<rparr>)))"
  proof -
    from assms(2) consider
        (name) "b = buildFromName fl s w r nm ctx"
      | (frequency) "b = buildFromFrequency fl s w r x ctx"
      | (keynb) "b = buildFromKeyNb fl s w r k ctx"
      by blast
    then show ?thesis
    proof cases
      case name
      show ?thesis
      proof (cases "find (\<lambda>e. obj.name e = nm) (getNotesInfo fl s)")
        case None
        with name assms(3) show ?thesis by (simp add: buildFromName_def)
      next
        case (Some e)
        from byName [OF name Some] assms(1) show ?thesis by blast
      qed
    next
      case frequency
      show ?thesis
      proof (cases "js_lt x (Num (freq (getNotesInfo fl s ! 0)))
               \<or> js_lt (Num (freq (getNotesInfo fl s ! 87))) x")
        case True
        from frequency assms(3) show ?thesis
          unfolding buildFromFrequency_out_of_range [OF True] by simp
      next
        case False
        let ?c = "foldl (closer fl x) (hd (getNotesInfo fl s)) (tl (getNotesInfo fl s))"
        let ?w = "w\<lparr>console := console w @ [Closest_frequency (freq ?c) (obj.name ?c)]\<rparr>"
        have b: "b = buildFromName fl s ?w r (obj.name ?c) ctx"
          using frequency unfolding buildFromFrequency_in_range [OF False] .
        show ?thesis
        proof (cases "find (\<lambda>e. obj.name e = obj.name ?c) (getNotesInfo fl s)")
          case None
          with b assms(3) show ?thesis by (simp add: buildFromName_def)
        next
          case (Some e)
          have "AudioContext_available ?w" "created ?w = created w" using assms(1) by simp_all
          with byName [OF b Some] show ?thesis by blast
        qed
      qed
    next
      case keynb
      show ?thesis
      proof (cases "find (\<lambda>e. obj.keynb e = k) (getNotesInfo fl s)")
        case None
        with keynb assms(3) show ?thesis by (simp add: buildFromKeyNb_def)
      next
        case (Some e)
        have "b = (Inr (fst (new_notePlayer w r (e\<lparr>obj.audioContext := ctx\<rparr>))),
                     snd (new_notePlayer w r (e\<lparr>obj.audioContext := ctx\<rparr>)))"
          using keynb Some by (simp add: buildFromKeyNb_def split: prod.splits)
        with assms(1) show ?thesis by blast
      qed
    qed
  qed
  then obtain e w1 where w1: "AudioContext_available w1" "created w1 = created w"
    and b: "b = (Inr (fst (new_notePlayer w1 r (e\<lparr>obj.audioContext := ctx\<rparr>))),
             snd (new_notePlayer w1 r (e\<lparr>obj.audioContext := ctx\<rparr>)))" by blast
  from assms(3) b have p: "p = fst (new_notePlayer w1 r (e\<lparr>obj.audioContext := ctx\<rparr>))" by simp
  show ?thesis
    using w1 by (cases ctx)
      (simp_all add: b p new_notePlayer_Undefined new_notePlayer_Null new_notePlayer_Val)
qed

text \<open>\<^verbatim>\<open>buildFromKeyNb(49)\<close> in a browser that has created no context yet is an instance.\<close>

theorem C9_witness:
  "AudioContext_available \<lparr>AudioContext_available = True, created = 0, console = []\<rparr>
   \<and> fst (buildFromKeyNb id (root 12 2)
          \<lparr>AudioContext_available = True, created = 0, console = []\<rparr> 1 49 Undefined)
     = Inr \<lparr>pianoKeyNb = 49, frequency = freq_at id (root 12 2) 49, octave = ''4'',
            name = ''A4'', duration = Val 1, volume = Val 1,
            audioContext = Val (AudioContext 0), destinationNode = Val (Destination 0)\<rparr>
   \<and> created (snd (buildFromKeyNb id (root 12 2)
          \<lparr>AudioContext_available = True, created = 0, console = []\<rparr> 1 49 Undefined)) = 1"
proof -
  let ?w = "\<lparr>AudioContext_available = True, created = 0, console = []\<rparr>"
  let ?p = "\<lparr>pianoKeyNb = 49, frequency = freq_at id (root 12 2) 49, octave = ''4'',
            name = ''A4'', duration = Val 1, volume = Val 1,
            audioContext = Val (AudioContext 0), destinationNode = Val (Destination 0)\<rparr>"
  let ?b = "buildFromKeyNb id (root 12 2) ?w 1 49 Undefined"
  have a: "AudioContext_available ?w" by simp
  have r: "fst ?b = Inr ?p"
    using name_key_entry_48 [of id "root 12 2"]
    by (simp add: buildFromKeyNb_eq new_notePlayer_def Let_def key_entry_def substr_last_def)
  have "?b = buildFromName id (root 12 2) ?w 1 [] Undefined
       \<or> ?b = buildFromFrequency id (root 12 2) ?w 1 NaN Undefined
       \<or> ?b = buildFromKeyNb id (root 12 2) ?w 1 49 Undefined" by blast
  from C9_default_context_is_created [OF a this r] a r show ?thesis by simp
qed

text \<open>
  The claim as stated (no context is created by the resolver) fails there:
  after \<^verbatim>\<open>buildFromKeyNb(49)\<close> one context exists and the note holds it.
\<close>

theorem C9_counterexample:
  "created (snd (buildFromKeyNb id (root 12 2)
          \<lparr>AudioContext_available = True, created = 0, console = []\<rparr> 1 49 Undefined)) = 1
   \<and> map_sum id audioContext (fst (buildFromKeyNb id (root 12 2)
          \<lparr>AudioContext_available = True, created = 0, console = []\<rparr> 1 49 Undefined))
      = Inr (Val (AudioContext 0))"
  by (simp add: buildFromKeyNb_eq new_notePlayer_Undefined)

text \<open>
  \<^bold>\<open>C10\<close>. \<^verbatim>\<open>setDuration(undefined)\<close> changes nothing and \<^verbatim>\<open>setDuration(1.5)\<close> sets the
  duration to 1.5; \<^verbatim>\<open>setVolume(undefined)\<close> changes nothing and \<^verbatim>\<open>setVolume(v)\<close> stores \<open>v\<close>
  as it is, for every number \<open>v\<close>; each setter changes its own field only.
\<close>

theorem C10_setters:
  "setDuration Undefined p = p
   \<and> setDuration (Val 1.5) p = p\<lparr>duration := Val 1.5\<rparr>
   \<and> setVolume Undefined p = p
   \<and> setVolume (Val v) p = p\<lparr>volume := Val v\<rparr>
   \<and> setDuration d p = p\<lparr>duration := duration (setDuration d p)\<rparr>
   \<and> setVolume x p = p\<lparr>volume := volume (setVolume x p)\<rparr>"
  by (simp add: setDuration_def setVolume_def)

end
